theory Spec2Isabelle
  imports Main
begin

section \<open>Text\<close>

text \<open>
  A Python \<open>str\<close> is modelled as a \<open>string\<close>, one \<open>char\<close> per code point, which covers the
  code points 0 to 255. The classes of characters below are those of Python for these code
  points; text with a code point above 255 is outside the model.
\<close>

definition ASCII_UPPER :: string where
  "ASCII_UPPER = ''ABCDEFGHIJKLMNOPQRSTUVWXYZ''"

definition ASCII_LOWER :: string where
  "ASCII_LOWER = ''abcdefghijklmnopqrstuvwxyz''"

definition DIGITS :: string where
  "DIGITS = ''0123456789''"

text \<open>
  The letters from code point 128 on that \<open>str.lower()\<close> changes, and what it makes of each:
  the capital letters from 192 to 222 without the multiplication sign, each moved up by 32.
\<close>

definition LATIN1_UPPER :: string where
  "LATIN1_UPPER =
     [ CHR 0xC0, CHR 0xC1, CHR 0xC2, CHR 0xC3, CHR 0xC4, CHR 0xC5, CHR 0xC6, CHR 0xC7,
     CHR 0xC8, CHR 0xC9, CHR 0xCA, CHR 0xCB, CHR 0xCC, CHR 0xCD, CHR 0xCE, CHR 0xCF,
     CHR 0xD0, CHR 0xD1, CHR 0xD2, CHR 0xD3, CHR 0xD4, CHR 0xD5, CHR 0xD6, CHR 0xD8,
     CHR 0xD9, CHR 0xDA, CHR 0xDB, CHR 0xDC, CHR 0xDD, CHR 0xDE ]"

definition LATIN1_LOWER :: string where
  "LATIN1_LOWER =
     [ CHR 0xE0, CHR 0xE1, CHR 0xE2, CHR 0xE3, CHR 0xE4, CHR 0xE5, CHR 0xE6, CHR 0xE7,
     CHR 0xE8, CHR 0xE9, CHR 0xEA, CHR 0xEB, CHR 0xEC, CHR 0xED, CHR 0xEE, CHR 0xEF,
     CHR 0xF0, CHR 0xF1, CHR 0xF2, CHR 0xF3, CHR 0xF4, CHR 0xF5, CHR 0xF6, CHR 0xF8,
     CHR 0xF9, CHR 0xFA, CHR 0xFB, CHR 0xFC, CHR 0xFD, CHR 0xFE ]"

definition UPPER :: string where
  "UPPER = ASCII_UPPER @ LATIN1_UPPER"

definition LOWER :: string where
  "LOWER = ASCII_LOWER @ LATIN1_LOWER"

text \<open>\<open>str.lower()\<close> on one character.\<close>

definition lower_char :: "char \<Rightarrow> char" where
  "lower_char c = (case map_of (zip UPPER LOWER) c of Some d \<Rightarrow> d | None \<Rightarrow> c)"

definition lower :: "string \<Rightarrow> string" where
  "lower s = map lower_char s"

text \<open>\<open>needle in hay\<close> on strings: \<open>needle\<close> occurs in \<open>hay\<close> as a contiguous run.\<close>

fun starts_with :: "string \<Rightarrow> string \<Rightarrow> bool" where
  "starts_with [] hay = True"
| "starts_with (n # ns) [] = False"
| "starts_with (n # ns) (h # hs) = (n = h \<and> starts_with ns hs)"

fun str_in :: "string \<Rightarrow> string \<Rightarrow> bool" where
  "str_in needle [] = (needle = [])"
| "str_in needle (h # hs) = (starts_with needle (h # hs) \<or> str_in needle hs)"

text \<open>
  The characters for which \<open>str.isspace()\<close> holds: tab, line feed, vertical tab, form feed,
  carriage return, the four separators 28 to 31, the space, the next-line control 133 and
  the no-break space 160. \<open>\s\<close> of a pattern and \<open>str.strip()\<close> use this set.
\<close>

definition WHITESPACE :: string where
  "WHITESPACE = [CHR 0x09, CHR 0x0A, CHR 0x0B, CHR 0x0C, CHR 0x0D,
                 CHR 0x1C, CHR 0x1D, CHR 0x1E, CHR 0x1F, CHR 0x20, CHR 0x85, CHR 0xA0]"

definition is_space :: "char \<Rightarrow> bool" where
  "is_space c = (c \<in> set WHITESPACE)"

text \<open>
  \<open>\w\<close> of a pattern: the underscore and the characters for which \<open>str.isalnum()\<close> holds,
  which from code point 128 on are the letters, the two ordinal indicators, the micro sign,
  the superscript digits and the fractions.
\<close>

definition LATIN1_WORD :: string where
  "LATIN1_WORD =
     [ CHR 0xAA, CHR 0xB2, CHR 0xB3, CHR 0xB5, CHR 0xB9, CHR 0xBA, CHR 0xBC, CHR 0xBD,
     CHR 0xBE, CHR 0xC0, CHR 0xC1, CHR 0xC2, CHR 0xC3, CHR 0xC4, CHR 0xC5, CHR 0xC6,
     CHR 0xC7, CHR 0xC8, CHR 0xC9, CHR 0xCA, CHR 0xCB, CHR 0xCC, CHR 0xCD, CHR 0xCE,
     CHR 0xCF, CHR 0xD0, CHR 0xD1, CHR 0xD2, CHR 0xD3, CHR 0xD4, CHR 0xD5, CHR 0xD6,
     CHR 0xD8, CHR 0xD9, CHR 0xDA, CHR 0xDB, CHR 0xDC, CHR 0xDD, CHR 0xDE, CHR 0xDF,
     CHR 0xE0, CHR 0xE1, CHR 0xE2, CHR 0xE3, CHR 0xE4, CHR 0xE5, CHR 0xE6, CHR 0xE7,
     CHR 0xE8, CHR 0xE9, CHR 0xEA, CHR 0xEB, CHR 0xEC, CHR 0xED, CHR 0xEE, CHR 0xEF,
     CHR 0xF0, CHR 0xF1, CHR 0xF2, CHR 0xF3, CHR 0xF4, CHR 0xF5, CHR 0xF6, CHR 0xF8,
     CHR 0xF9, CHR 0xFA, CHR 0xFB, CHR 0xFC, CHR 0xFD, CHR 0xFE, CHR 0xFF ]"

definition is_word :: "char \<Rightarrow> bool" where
  "is_word c = (c \<in> set (ASCII_LOWER @ ASCII_UPPER @ DIGITS @ ''_'' @ LATIN1_WORD))"

text \<open>The text without the characters of a class at its two ends; \<open>str.strip()\<close>.\<close>

definition strip_class :: "(char \<Rightarrow> bool) \<Rightarrow> string \<Rightarrow> string" where
  "strip_class cls s = rev (dropWhile cls (rev (dropWhile cls s)))"

definition strip :: "string \<Rightarrow> string" where
  "strip s = strip_class is_space s"

section \<open>Patterns and \<open>re.search\<close>\<close>

text \<open>
  The part of Python's pattern language that the signature lists use. \<open>NoneOf [CHR 0x0A]\<close>
  is the dot (any character but a line feed), \<open>OneOf WHITESPACE\<close> is \<open>\s\<close>, \<open>WordB\<close> is
  \<open>\b\<close>. The callers only test whether \<open>re.search\<close> finds a match, so a lazy star
  and a greedy one, and the order of alternatives, make no difference and are not told apart.
\<close>

datatype re =
    Eps
  | Lit char
  | OneOf string
  | NoneOf string
  | WordB
  | Seq re re
  | Alt re re
  | Star re

text \<open>
  A position in the subject: the character before it, if any, and the text from it on.
\<close>

type_synonym pos = "char option \<times> string"

fun word_before :: "pos \<Rightarrow> bool" where
  "word_before (None, rest) = False"
| "word_before (Some c, rest) = is_word c"

fun word_after :: "pos \<Rightarrow> bool" where
  "word_after (prev, []) = False"
| "word_after (prev, c # rest) = is_word c"

fun one_char :: "(char \<Rightarrow> bool) \<Rightarrow> pos \<Rightarrow> pos list" where
  "one_char ok (prev, []) = []"
| "one_char ok (prev, c # rest) = (if ok c then [(Some c, rest)] else [])"

text \<open>All positions reached from \<open>ps\<close> by at most \<open>n\<close> rounds of \<open>f\<close>.\<close>

fun rounds :: "nat \<Rightarrow> (pos \<Rightarrow> pos list) \<Rightarrow> pos list \<Rightarrow> pos list" where
  "rounds 0 f ps = ps"
| "rounds (Suc n) f ps = ps @ rounds n f (concat (map f ps))"

text \<open>
  \<open>ends r p\<close> lists the positions at which a match of \<open>r\<close> that starts at \<open>p\<close> can end. A
  star needs no more rounds than there are characters left, since a round that consumes
  nothing reaches no new position.
\<close>

primrec ends :: "re \<Rightarrow> pos \<Rightarrow> pos list" where
  "ends Eps = (\<lambda>p. [p])"
| "ends (Lit c) = one_char (\<lambda>d. d = c)"
| "ends (OneOf cs) = one_char (\<lambda>d. d \<in> set cs)"
| "ends (NoneOf cs) = one_char (\<lambda>d. d \<notin> set cs)"
| "ends WordB = (\<lambda>p. if word_before p \<noteq> word_after p then [p] else [])"
| "ends (Seq a b) = (\<lambda>p. concat (map (ends b) (ends a p)))"
| "ends (Alt a b) = (\<lambda>p. ends a p @ ends b p)"
| "ends (Star a) = (\<lambda>p. rounds (length (snd p)) (ends a) [p])"

text \<open>Every position of a subject, the one after its last character included.\<close>

fun positions :: "char option \<Rightarrow> string \<Rightarrow> pos list" where
  "positions prev [] = [(prev, [])]"
| "positions prev (c # rest) = (prev, c # rest) # positions (Some c) rest"

text \<open>\<open>re.search(pat, s)\<close> as a truth value: a match starts at some position.\<close>

definition search :: "re \<Rightarrow> string \<Rightarrow> bool" where
  "search pat s = list_ex (\<lambda>p. ends pat p \<noteq> []) (positions None s)"

text \<open>A literal run of characters, \<open>a+\<close>, and the dot.\<close>

definition Str :: "string \<Rightarrow> re" where
  "Str s = foldr (\<lambda>c r. Seq (Lit c) r) s Eps"

definition Plus :: "re \<Rightarrow> re" where
  "Plus a = Seq a (Star a)"

definition Dot :: re where
  "Dot = NoneOf [CHR 0x0A]"

section \<open>Signature matcher (\<open>web_honeypot.py\<close>)\<close>

text \<open>
  The signature lists, pattern by pattern and in the order of the source:
  \<^verbatim>\<open>(\bor\b|\band\b).*(=|like)\<close>, \<^verbatim>\<open>union.*select\<close>, \<^verbatim>\<open>select.*from\<close>,
  \<^verbatim>\<open>drop\s+table\<close>, a single quote before \<^verbatim>\<open>--\<close>, a double quote before
  \<^verbatim>\<open>--\<close>, and \<^verbatim>\<open>;--\<close>.
\<close>

definition SQLI_PATTERNS :: "re list" where
  "SQLI_PATTERNS =
    [ Seq (Alt (Seq WordB (Seq (Str ''or'') WordB)) (Seq WordB (Seq (Str ''and'') WordB)))
        (Seq (Star Dot) (Alt (Str ''='') (Str ''like''))),
      Seq (Str ''union'') (Seq (Star Dot) (Str ''select'')),
      Seq (Str ''select'') (Seq (Star Dot) (Str ''from'')),
      Seq (Str ''drop'') (Seq (Plus (OneOf WHITESPACE)) (Str ''table'')),
      Str [CHR 0x27, CHR ''-'', CHR ''-''],
      Str [CHR 0x22, CHR ''-'', CHR ''-''],
      Str '';--'' ]"

text \<open>
  \<^verbatim>\<open><script.*?>\<close>, \<^verbatim>\<open>javascript:\<close>, \<^verbatim>\<open>onerror=\<close> and \<^verbatim>\<open>onload=\<close>.
\<close>

definition XSS_PATTERNS :: "re list" where
  "XSS_PATTERNS =
    [ Seq (Str ''<script'') (Seq (Star Dot) (Str ''>'')),
      Str ''javascript:'',
      Str ''onerror='',
      Str ''onload='' ]"

definition is_sqli :: "string \<Rightarrow> bool" where
  "is_sqli payload = list_ex (\<lambda>pat. search pat (lower payload)) SQLI_PATTERNS"

definition is_xss :: "string \<Rightarrow> bool" where
  "is_xss payload = list_ex (\<lambda>pat. search pat (lower payload)) XSS_PATTERNS"

section \<open>Risk scorer (\<open>web_honeypot.py\<close>)\<close>

text \<open>
  \<open>failed_attempts\<close> is a \<open>defaultdict(int)\<close>: a key that was never written reads as 0, so
  the counters are a total function from the identity to an integer.
\<close>

type_synonym counters = "string \<Rightarrow> int"

text \<open>
  \<open>analyze_request\<close> reads and writes the module-level counters; the model takes them as
  an argument and returns them with the pair \<open>(risk, tags)\<close>. The checks run in the order
  of the source and none of them is skipped.
\<close>

definition analyze_request ::
  "counters \<Rightarrow> string \<Rightarrow> string \<Rightarrow> string \<Rightarrow> (int \<times> string list) \<times> counters" where
  "analyze_request fa ip path data_str =
    (let risk = (0::int);
         tags = [];
         (risk, tags) =
           (if is_sqli data_str then (risk + 5, tags @ [''SQLi'']) else (risk, tags));
         (risk, tags) =
           (if is_xss data_str then (risk + 5, tags @ [''XSS'']) else (risk, tags));
         (risk, tags, fa) =
           (if path \<in> set [''/admin'', ''/login'']
            then (let fa = fa(ip := fa ip + 1)
                  in if fa ip > 5 then (risk + 3, tags @ [''Bruteforce''], fa)
                     else (risk, tags, fa))
            else (risk, tags, fa));
         (risk, tags) =
           (if list_ex (\<lambda>p. str_in p (lower path))
                 [''phpmyadmin'', ''wp-admin'', ''.env'', ''config'']
            then (risk + 2, tags @ [''Scanner'']) else (risk, tags));
         tags = (if risk = 0 then tags @ [''Low-Risk''] else tags)
     in ((risk, tags), fa))"

section \<open>Deception response selector (\<open>genai_engine.py\<close>)\<close>

text \<open>
  The selector draws from Python's \<open>random\<close> module and reads the clock. The model takes
  the draws as an argument: one natural number per call of \<open>random.choice\<close> and of
  \<open>random.randint\<close>, a sequence of them for \<open>random.sample\<close>, and the text of the time
  stamp. Every value of a draw stands for an outcome the call can have, and every outcome
  is the image of some draw.
\<close>

record draws =
  pw_draw :: nat
  api_draw :: nat
  aws_draw :: nat
  now_iso :: string
  ls_size_draw :: nat
  ls_draws :: "nat \<Rightarrow> nat"
  err_draw :: nat
  day_draw :: nat
  month_draw :: nat

text \<open>\<open>random.choice(xs)\<close> for a list that is not empty.\<close>

definition choice :: "'a list \<Rightarrow> nat \<Rightarrow> 'a" where
  "choice xs d = xs ! (d mod length xs)"

text \<open>\<open>random.randint(a, b)\<close> for \<open>a \<le> b\<close>: both ends included.\<close>

definition randint :: "nat \<Rightarrow> nat \<Rightarrow> nat \<Rightarrow> nat" where
  "randint a b d = a + d mod (b - a + 1)"

text \<open>
  \<open>random.sample(pool, k)\<close> for \<open>k \<le> len(pool)\<close>: \<open>k\<close> elements at distinct places of
  the pool, in the order they were drawn.
\<close>

definition remove_at :: "nat \<Rightarrow> 'a list \<Rightarrow> 'a list" where
  "remove_at i xs = take i xs @ drop (Suc i) xs"

fun sample :: "'a list \<Rightarrow> nat \<Rightarrow> (nat \<Rightarrow> nat) \<Rightarrow> 'a list" where
  "sample pool 0 ds = []"
| "sample pool (Suc k) ds =
     (if pool = [] then []
      else let i = ds 0 mod length pool
           in pool ! i # sample (remove_at i pool) k (\<lambda>j. ds (Suc j)))"

text \<open>\<open>str(n)\<close> for a natural number, as an f-string renders it.\<close>

fun str_nat :: "nat \<Rightarrow> string" where
  "str_nat n = (if n < 10 then [DIGITS ! n] else str_nat (n div 10) @ [DIGITS ! (n mod 10)])"

declare str_nat.simps [simp del]

definition NL :: string where
  "NL = [CHR 0x0A]"

text \<open>\<open>sep.join(xs)\<close>.\<close>

fun join :: "string \<Rightarrow> string list \<Rightarrow> string" where
  "join sep [] = []"
| "join sep [x] = x"
| "join sep (x # y # ys) = x @ sep @ join sep (y # ys)"

definition FAKE_FILES :: "string list" where
  "FAKE_FILES = [''users.db'', ''config.yaml'', ''backup.sql'', ''secrets.txt'',
                 ''logs.txt'', ''app.py'', ''admin_panel.php'']"

definition FAKE_PASSWORDS :: "string list" where
  "FAKE_PASSWORDS = [''P@ssw0rd!'', ''admin123'', ''changeme'', ''root@123'', ''welcome1'']"

definition juicy_secrets :: "draws \<Rightarrow> string" where
  "juicy_secrets r = concat
    [ NL, ''# Leaked Secrets (FAKE)'', NL,
      ''DB_USER=admin'', NL,
      ''DB_PASS='', choice FAKE_PASSWORDS (pw_draw r), NL,
      ''API_KEY=sk-'', str_nat (randint 1000000 9999999 (api_draw r)), NL,
      ''AWS_SECRET=AKIA'', str_nat (randint 10000000 99999999 (aws_draw r)), NL,
      ''LAST_ROTATED='', now_iso r, NL ]"

definition fake_ls :: "draws \<Rightarrow> string" where
  "fake_ls r =
    (let files = sample FAKE_FILES (randint 3 (length FAKE_FILES) (ls_size_draw r)) (ls_draws r)
     in join NL files)"

text \<open>The list \<open>errors\<close> local to \<open>fake_error\<close>.\<close>

definition errors :: "string list" where
  "errors = [''Permission denied.'', ''Access denied.'', ''Internal server error.'',
             ''Invalid request.'', ''Operation failed.'']"

definition fake_error :: "draws \<Rightarrow> string" where
  "fake_error r = choice errors (err_draw r)"

definition fake_account_locked :: string where
  "fake_account_locked = ''Account temporarily locked due to too many failed attempts.''"

definition fake_admin_page :: "draws \<Rightarrow> string" where
  "fake_admin_page r = concat
    [ NL, ''<h2>Admin Dashboard</h2>'', NL,
      ''<p>Status: OK</p>'', NL,
      ''<p>Active Users: admin, backup, service</p>'', NL,
      ''<p>Last Backup: '', str_nat (randint 1 28 (day_draw r)), ''/0'',
        str_nat (randint 1 9 (month_draw r)), ''/2026</p>'', NL ]"

definition generate_response :: "draws \<Rightarrow> string \<Rightarrow> int \<Rightarrow> string \<Rightarrow> string" where
  "generate_response r attack_type risk_score path =
    (let attack_type = (if attack_type = [] then ''Normal'' else attack_type)
     in if risk_score \<ge> 5 \<and>
           (str_in ''Scanner'' attack_type \<or> str_in ''SQLi'' attack_type \<or> str_in ''XSS'' attack_type)
        then juicy_secrets r
        else if risk_score \<ge> 5 \<and> str_in ''Bruteforce'' attack_type
        then fake_account_locked
        else if str_in ''Scanner'' attack_type
        then fake_ls r
        else if str_in ''SQLi'' attack_type \<or> str_in ''XSS'' attack_type
        then fake_error r
        else if str_in ''admin'' (lower path)
        then fake_admin_page r
        else fake_error r)"

section \<open>Request handlers (\<open>web_honeypot.py\<close>)\<close>

text \<open>
  What a view function reads from Flask's \<open>request\<close>: the method, the path, the peer
  address, the headers and the form fields (both looked up by name, with a default), and
  the body as text.
\<close>

record request =
  req_method :: string
  req_path :: string
  remote_addr :: string
  headers :: "string \<rightharpoonup> string"
  form :: "string \<rightharpoonup> string"
  body :: string

definition get_or :: "(string \<rightharpoonup> string) \<Rightarrow> string \<Rightarrow> string \<Rightarrow> string" where
  "get_or m k dflt = (case m k of None \<Rightarrow> dflt | Some v \<Rightarrow> v)"

datatype error = ValueError

text \<open>
  \<open>float(s)\<close> raises \<open>ValueError\<close> unless \<open>s\<close>, without the white space at its two ends, is
  a floating-point literal: an optional sign, then \<open>inf\<close>, \<open>infinity\<close> or \<open>nan\<close> in any
  case, or decimal digits with an optional point and exponent, where single underscores may
  stand between digits. The white space \<open>float\<close> removes is not that of \<open>str.strip()\<close>: it
  lacks the four separators 28 to 31. The model decides whether the conversion raises, and
  does not compute the number.
\<close>

definition FLOAT_SPACE :: string where
  "FLOAT_SPACE = [CHR 0x09, CHR 0x0A, CHR 0x0B, CHR 0x0C, CHR 0x0D, CHR 0x20,
                  CHR 0x85, CHR 0xA0]"

definition digitpart :: re where
  "digitpart = Seq (OneOf DIGITS) (Star (Seq (Alt Eps (Lit CHR ''_'')) (OneOf DIGITS)))"

text \<open>The literal in lower case; \<open>float_parses\<close> lower-cases the text before it matches.\<close>

definition FLOAT_LITERAL :: re where
  "FLOAT_LITERAL =
    Seq (Alt Eps (OneOf ''+-''))
      (Alt (Seq (Alt (Seq (Alt Eps digitpart) (Seq (Lit CHR ''.'') digitpart))
                     (Seq digitpart (Alt Eps (Lit CHR ''.''))))
                (Alt Eps (Seq (Lit CHR ''e'') (Seq (Alt Eps (OneOf ''+-'')) digitpart))))
           (Alt (Str ''inf'') (Alt (Str ''infinity'') (Str ''nan''))))"

text \<open>A match of the whole subject.\<close>

definition fullmatch :: "re \<Rightarrow> string \<Rightarrow> bool" where
  "fullmatch pat s = list_ex (\<lambda>p. snd p = []) (ends pat (None, s))"

definition float_parses :: "string \<Rightarrow> bool" where
  "float_parses s =
     fullmatch FLOAT_LITERAL (lower (strip_class (\<lambda>c. c \<in> set FLOAT_SPACE) s))"

text \<open>
  \<open>float(v) if v != "0" else 0\<close>, as the handlers convert the \<open>X-Lat\<close> and \<open>X-Lon\<close>
  headers. The event keeps the text of the header in place of the number.
\<close>

definition geo_value :: "string \<Rightarrow> error + string" where
  "geo_value v =
    (if v \<noteq> ''0'' then (if float_parses v then Inr v else Inl ValueError) else Inr ''0'')"

text \<open>
  One line of \<open>data/logs.jsonl\<close>. The time stamp is left out; \<open>username\<close> and \<open>password\<close>
  are present in the events of a login POST only, \<open>data\<close> in those of the catch-all route
  only.
\<close>

record event =
  ev_ip :: string
  ev_country :: string
  ev_lat :: string
  ev_lon :: string
  ev_user_agent :: string
  ev_path :: string
  ev_method :: string
  ev_username :: "string option"
  ev_password :: "string option"
  ev_data :: "string option"
  ev_risk_score :: int
  ev_tags :: "string list"

text \<open>
  The state of the process: the counters and the log file, to which \<open>log_event\<close> appends.
  A failure of the file system is outside the model.
\<close>

record state =
  failed_attempts :: counters
  log_file :: "event list"

definition log_event :: "state \<Rightarrow> event \<Rightarrow> state" where
  "log_event s e = s\<lparr>log_file := log_file s @ [e]\<rparr>"

text \<open>
  A handler returns the body and the status code, or the exception that leaves it (Flask
  then answers with status 500), and the state it leaves behind.
\<close>

type_synonym response = "error + string \<times> nat"

definition index :: "state \<Rightarrow> response \<times> state" where
  "index s = (Inr (''Web Honeypot is running. Try /admin or /login'', 200), s)"

definition LOGIN_PAGE :: string where
  \<open>LOGIN_PAGE = concat
    [ NL,
      ''<!DOCTYPE html>'',
      NL,
      ''<html>'',
      NL,
      ''<head>'',
      NL,
      ''    <title>Admin Login</title>'',
      NL,
      ''</head>'',
      NL,
      ''<body>'',
      NL,
      ''    <h2>Admin Panel</h2>'',
      NL,
      ''    <p>Please login to continue</p>'',
      NL,
      ''    <form method="POST">'',
      NL,
      ''        <input type="text" name="username" placeholder="Username" required /><br><br>'',
      NL,
      ''        <input type="password" name="password" placeholder="Password" required /><br><br>'',
      NL,
      ''        <button type="submit">Login</button>'',
      NL,
      ''    </form>'',
      NL,
      ''</body>'',
      NL,
      ''</html>'',
      NL ]\<close>

text \<open>
  \<open>render_template_string\<close> on a template without template markup whose line breaks are
  line feeds, as \<open>LOGIN_PAGE\<close> is: the text, without one final line feed.
\<close>

definition render_template_string :: "string \<Rightarrow> string" where
  "render_template_string t = (if t \<noteq> [] \<and> last t = CHR 0x0A then butlast t else t)"

definition fake_login :: "state \<Rightarrow> request \<Rightarrow> response \<times> state" where
  "fake_login s req =
    (let ip = get_or (headers req) ''X-Forwarded-For'' (remote_addr req);
         ua = get_or (headers req) ''User-Agent'' [];
         country = get_or (headers req) ''X-Country'' ''Unknown'';
         lat = get_or (headers req) ''X-Lat'' ''0'';
         lon = get_or (headers req) ''X-Lon'' ''0''
     in if req_method req = ''POST''
        then
          (let username = get_or (form req) ''username'' [];
               password = get_or (form req) ''password'' [];
               payload = username @ '' '' @ password;
               ((risk, tags), fa) = analyze_request (failed_attempts s) ip (req_path req) payload;
               s = s\<lparr>failed_attempts := fa\<rparr>
           in case geo_value lat of Inl e \<Rightarrow> (Inl e, s) | Inr la \<Rightarrow>
              (case geo_value lon of Inl e \<Rightarrow> (Inl e, s) | Inr lo \<Rightarrow>
                (let event = \<lparr>ev_ip = ip, ev_country = country, ev_lat = la, ev_lon = lo,
                       ev_user_agent = ua, ev_path = req_path req, ev_method = ''POST'',
                       ev_username = Some username, ev_password = Some password,
                       ev_data = None, ev_risk_score = risk, ev_tags = tags\<rparr>;
                     s = log_event s event
                 in (Inr (''Invalid credentials. Please try again.'', 401), s))))
        else
          (let ((risk, tags), fa) = analyze_request (failed_attempts s) ip (req_path req) [];
               s = s\<lparr>failed_attempts := fa\<rparr>
           in case geo_value lat of Inl e \<Rightarrow> (Inl e, s) | Inr la \<Rightarrow>
              (case geo_value lon of Inl e \<Rightarrow> (Inl e, s) | Inr lo \<Rightarrow>
                (let event = \<lparr>ev_ip = ip, ev_country = country, ev_lat = la, ev_lon = lo,
                       ev_user_agent = ua, ev_path = req_path req, ev_method = ''GET'',
                       ev_username = None, ev_password = None,
                       ev_data = None, ev_risk_score = risk, ev_tags = tags\<rparr>;
                     s = log_event s event
                 in (Inr (render_template_string LOGIN_PAGE, 200), s)))))"

text \<open>
  The catch-all route, with the draws of the response selector. \<open>tags\<close> is always a list,
  so the primary tag is its first element, or \<open>Normal\<close> for an empty list.
\<close>

definition catch_all :: "draws \<Rightarrow> state \<Rightarrow> string \<Rightarrow> request \<Rightarrow> response \<times> state" where
  "catch_all r s any_path req =
    (let ip = get_or (headers req) ''X-Forwarded-For'' (remote_addr req);
         ua = get_or (headers req) ''User-Agent'' [];
         country = get_or (headers req) ''X-Country'' ''Unknown'';
         lat = get_or (headers req) ''X-Lat'' ''0'';
         lon = get_or (headers req) ''X-Lon'' ''0'';
         data_str = (if req_method req = ''POST'' then body req else []);
         ((risk, tags), fa) = analyze_request (failed_attempts s) ip (''/'' @ any_path) data_str;
         s = s\<lparr>failed_attempts := fa\<rparr>
     in case geo_value lat of Inl e \<Rightarrow> (Inl e, s) | Inr la \<Rightarrow>
        (case geo_value lon of Inl e \<Rightarrow> (Inl e, s) | Inr lo \<Rightarrow>
          (let event = \<lparr>ev_ip = ip, ev_country = country, ev_lat = la, ev_lon = lo,
                 ev_user_agent = ua, ev_path = ''/'' @ any_path, ev_method = req_method req,
                 ev_username = None, ev_password = None,
                 ev_data = Some data_str, ev_risk_score = risk, ev_tags = tags\<rparr>;
               s = log_event s event;
               attack_type = (case tags of [] \<Rightarrow> ''Normal'' | t # _ \<Rightarrow> t);
               fake_content = generate_response r attack_type risk (''/'' @ any_path)
           in (Inr (fake_content, 200), s))))"

section \<open>Shell session (\<open>ssh_honeypot.py\<close>)\<close>

text \<open>
  The state of one connection inside \<open>handle_client\<close>, once the channel is open: the receive
  buffer, the texts passed to \<open>chan.send\<close> in order, the commands written to the log in
  order, and whether \<open>chan.close()\<close> has run. The handshake, the time stamps and failures
  of the channel or of the log file are outside the model.
\<close>

record session =
  buffer :: string
  sent :: "string list"
  commands :: "string list"
  closed :: bool

text \<open>
  \<open>line, _, buffer = buffer.partition("\n")\<close>: the text before the first line feed and the
  text after it; without a line feed, the whole text and the empty text.
\<close>

definition partition_nl :: "string \<Rightarrow> string \<times> string" where
  "partition_nl b =
     (takeWhile (\<lambda>c. c \<noteq> CHR 0x0A) b, drop 1 (dropWhile (\<lambda>c. c \<noteq> CHR 0x0A) b))"

text \<open>The reply to a command that is neither blank nor an exit keyword.\<close>

definition reply :: "string \<Rightarrow> string" where
  "reply command =
    (if command = ''ls'' then ''config.txt  users.db  backup.sql'' @ NL
     else if command = ''whoami'' then ''root'' @ NL
     else if command = ''pwd'' then ''/root'' @ NL
     else ''command not found'' @ NL)"

text \<open>
  The inner loop, which runs while the buffer holds a line feed or a carriage return. It
  returns the session and whether an exit keyword made \<open>handle_client\<close> return.
\<close>

function drain :: "session \<Rightarrow> session \<times> bool" where
  "drain s =
    (if CHR 0x0A \<in> set (buffer s) \<or> CHR 0x0D \<in> set (buffer s)
     then
       (let (line, rest) = partition_nl (buffer s);
            s = s\<lparr>buffer := rest\<rparr>;
            command = strip line
        in if command = []
           then drain (s\<lparr>sent := sent s @ [''$ '']\<rparr>)
           else
             (let s = s\<lparr>commands := commands s @ [command]\<rparr>
              in if command \<in> set [''exit'', ''quit'']
                 then (s\<lparr>sent := sent s @ [''logout'' @ NL], closed := True\<rparr>, True)
                 else drain (s\<lparr>sent := sent s @ [reply command, ''$ '']\<rparr>)))
     else (s, False))"
  by pat_completeness auto
termination
proof -
  have shorter: "length (snd (partition_nl b)) < length b"
    if "CHR 0x0A \<in> set b \<or> CHR 0x0D \<in> set b" for b
  proof -
    from that have ne: "0 < length b" by auto
    define d where "d = dropWhile (\<lambda>c. c \<noteq> CHR 0x0A) b"
    have le: "length d \<le> length b" unfolding d_def by (rule length_dropWhile_le)
    have "length (drop 1 d) < length b"
    proof (cases d)
      case Nil
      then show ?thesis using ne by simp
    next
      case (Cons x xs)
      then show ?thesis using le by simp
    qed
    then show ?thesis by (simp add: partition_nl_def d_def)
  qed
  show ?thesis
  proof (relation "measure (\<lambda>s. length (buffer s))")
    show "wf (measure (\<lambda>s. length (buffer s)))" by simp
  next
    fix s :: session and x line rest xa xb
    assume c: "CHR 0x0A \<in> set (buffer s) \<or> CHR 0x0D \<in> set (buffer s)"
      and x: "x = partition_nl (buffer s)" and lr: "(line, rest) = x"
      and xa: "xa = s\<lparr>buffer := rest\<rparr>"
    have "rest = snd (partition_nl (buffer s))" using x lr by (metis snd_conv)
    then have "length rest < length (buffer s)" using shorter [OF c] by simp
    then show "(xa\<lparr>sent := sent xa @ [''$ '']\<rparr>, s) \<in> measure (\<lambda>s. length (buffer s))"
      using xa by simp
  next
    fix s :: session and x line rest xa xb xc
    assume c: "CHR 0x0A \<in> set (buffer s) \<or> CHR 0x0D \<in> set (buffer s)"
      and x: "x = partition_nl (buffer s)" and lr: "(line, rest) = x"
      and xa: "xa = s\<lparr>buffer := rest\<rparr>" and xb: "xb = strip line"
      and xc: "xc = xa\<lparr>commands := commands xa @ [xb]\<rparr>"
    have "rest = snd (partition_nl (buffer s))" using x lr by (metis snd_conv)
    then have "length rest < length (buffer s)" using shorter [OF c] by simp
    then show "(xc\<lparr>sent := sent xc @ [reply xb, ''$ '']\<rparr>, s)
        \<in> measure (\<lambda>s. length (buffer s))"
      using xa xc by simp
  qed
qed

declare drain.simps [simp del]

text \<open>
  What \<open>chan.recv(1024)\<close> returns: bytes that are not empty, given here by the text that
  \<open>decode("utf-8", errors="ignore")\<close> makes of them (which may be empty), or no bytes at
  all, when the peer has closed. An exception raised by \<open>recv\<close> leaves the loop the same
  way, so \<open>Eof\<close> stands for it too.
\<close>

datatype recv = Data string | Eof

text \<open>The two lines after the outer loop: \<open>chan.close()\<close> and \<open>transport.close()\<close>.\<close>

definition hangup :: "session \<Rightarrow> session" where
  "hangup s = s\<lparr>closed := True\<rparr>"

text \<open>
  The outer loop over the results of \<open>recv\<close> so far. When the list runs out the handler
  is waiting in \<open>recv\<close>, with the channel still open.
\<close>

fun serve :: "session \<Rightarrow> recv list \<Rightarrow> session" where
  "serve s [] = s"
| "serve s (Eof # later) = hangup s"
| "serve s (Data d # later) =
     (case drain (s\<lparr>buffer := buffer s @ d\<rparr>) of
        (s', True) \<Rightarrow> s'
      | (s', False) \<Rightarrow> serve s' later)"

text \<open>The session after the banner and the first prompt.\<close>

definition session0 :: session where
  "session0 = \<lparr>buffer = [], sent = [''Welcome to Ubuntu 20.04 LTS'' @ NL, ''$ ''],
      commands = [], closed = False\<rparr>"

definition handle_client :: "recv list \<Rightarrow> session" where
  "handle_client input = serve session0 input"

section \<open>Notions used to state the properties\<close>

text \<open>The weight the specification gives to each tag; any other tag weighs nothing.\<close>

definition tag_weight :: "string \<Rightarrow> int" where
  "tag_weight t =
    (if t = ''SQLi'' then 5 else if t = ''XSS'' then 5 else if t = ''Bruteforce'' then 3
     else if t = ''Scanner'' then 2 else 0)"

text \<open>Neither conversion of a geolocation header raises.\<close>

definition geo_ok :: "request \<Rightarrow> bool" where
  "geo_ok req =
    (\<not> isl (geo_value (get_or (headers req) ''X-Lat'' ''0'')) \<and>
     \<not> isl (geo_value (get_or (headers req) ''X-Lon'' ''0'')))"

text \<open>
  Every leaked-credentials artifact starts with the same three lines; a text that does not
  is not one.
\<close>

definition is_leaked_credentials :: "string \<Rightarrow> bool" where
  "is_leaked_credentials s =
    starts_with (NL @ ''# Leaked Secrets (FAKE)'' @ NL @ ''DB_USER=admin'' @ NL) s"

text \<open>
  A history of calls of the risk scorer, each with its identity, path and payload; the
  counters after it; and the number of calls in it that one identity made on \<open>/admin\<close> or
  \<open>/login\<close>.
\<close>

type_synonym interaction = "string \<times> string \<times> string"

fun counters_after :: "counters \<Rightarrow> interaction list \<Rightarrow> counters" where
  "counters_after fa [] = fa"
| "counters_after fa ((ip, path, d) # xs) =
     counters_after (snd (analyze_request fa ip path d)) xs"

definition prior_attempts :: "string \<Rightarrow> interaction list \<Rightarrow> nat" where
  "prior_attempts ip xs =
     length (filter (\<lambda>(i, p, d). i = ip \<and> p \<in> set [''/admin'', ''/login'']) xs)"

text \<open>
  The operations of the web process: a call of one of its three view functions. \<open>run\<close>
  performs a sequence of them.
\<close>

datatype call = Index | FakeLogin request | CatchAll draws string request

fun handle :: "state \<Rightarrow> call \<Rightarrow> response \<times> state" where
  "handle s Index = index s"
| "handle s (FakeLogin req) = fake_login s req"
| "handle s (CatchAll r any_path req) = catch_all r s any_path req"

fun run :: "state \<Rightarrow> call list \<Rightarrow> state" where
  "run s [] = s"
| "run s (c # cs) = run (snd (handle s c)) cs"

text \<open>The identity of a request, as both handlers compute it.\<close>

definition client :: "request \<Rightarrow> string" where
  "client req = get_or (headers req) ''X-Forwarded-For'' (remote_addr req)"

text \<open>The identity a call counts an attempt for: the call targets \<open>/admin\<close> or \<open>/login\<close>.\<close>

fun attempt_of :: "call \<Rightarrow> string option" where
  "attempt_of Index = None"
| "attempt_of (FakeLogin req) =
     (if req_path req \<in> set [''/admin'', ''/login''] then Some (client req) else None)"
| "attempt_of (CatchAll r any_path req) =
     (if ''/'' @ any_path \<in> set [''/admin'', ''/login''] then Some (client req) else None)"

text \<open>No exit keyword among the commands.\<close>

definition no_exit :: "string list \<Rightarrow> bool" where
  "no_exit cs = (''exit'' \<notin> set cs \<and> ''quit'' \<notin> set cs)"

text \<open>
  The text of lines that each end in a line feed; the commands logged for lines none of
  which is an exit keyword; and the texts sent in answer to one such line.
\<close>

definition lf_lines :: "string list \<Rightarrow> string" where
  "lf_lines ls = concat (map (\<lambda>x. x @ NL) ls)"

definition logged :: "string list \<Rightarrow> string list" where
  "logged ls = filter (\<lambda>c. c \<noteq> []) (map strip ls)"

definition replies_to :: "string \<Rightarrow> string list" where
  "replies_to x = (if strip x = [] then [''$ ''] else [reply (strip x), ''$ ''])"

subsection \<open>Concrete inputs\<close>

definition state0 :: state where
  "state0 = \<lparr>failed_attempts = (\<lambda>ip. 0), log_file = []\<rparr>"

definition draws0 :: draws where
  "draws0 = \<lparr>pw_draw = 2, api_draw = 123, aws_draw = 45,
     now_iso = ''2026-01-01T00:00:00+00:00'',
     ls_size_draw = 0, ls_draws = Suc, err_draw = 3, day_draw = 11, month_draw = 4\<rparr>"

definition SQLI_LOGIN :: string where
  "SQLI_LOGIN = ''admin' OR '1'='1''"

definition sqli_post :: request where
  "sqli_post = \<lparr>req_method = ''POST'', req_path = ''/admin'', remote_addr = ''203.0.113.7'',
     headers = Map.empty,
     form = [''username'' \<mapsto> SQLI_LOGIN, ''password'' \<mapsto> ''test''], body = []\<rparr>"

definition bad_geo_post :: request where
  "bad_geo_post = \<lparr>req_method = ''POST'', req_path = ''/login'', remote_addr = ''203.0.113.7'',
     headers = [''X-Lat'' \<mapsto> ''north''],
     form = [''username'' \<mapsto> ''alice'', ''password'' \<mapsto> ''secret''], body = []\<rparr>"

text \<open>Five attempts of one identity, among one attempt and one probe of another.\<close>

definition history :: "interaction list" where
  "history =
    [ (''203.0.113.7'', ''/admin'', []), (''198.51.100.9'', ''/login'', []),
      (''203.0.113.7'', ''/login'', []), (''203.0.113.7'', ''/admin'', []),
      (''198.51.100.9'', ''/phpmyadmin'', []), (''203.0.113.7'', ''/admin'', []),
      (''203.0.113.7'', ''/login'', []) ]"

text \<open>
  Two lines, each ended by a carriage return as a terminal sends it for the Enter key:
  received at once, and received one after the other.
\<close>

definition cr_input :: "recv list" where
  "cr_input = [Data (''ls'' @ [CHR 0x0D] @ ''exit'' @ [CHR 0x0D])]"

definition cr_split_input :: "recv list" where
  "cr_split_input = [Data (''ls'' @ [CHR 0x0D]), Data (''exit'' @ [CHR 0x0D])]"

section \<open>Properties\<close>

subsection \<open>Risk scorer\<close>

lemma tag_weight_simps:
  "tag_weight ''SQLi'' = 5" "tag_weight ''XSS'' = 5" "tag_weight ''Bruteforce'' = 3"
  "tag_weight ''Scanner'' = 2" "tag_weight ''Low-Risk'' = 0"
  by (simp_all add: tag_weight_def)

text \<open>
  Claim C2. For every call of the risk scorer, whatever the counters, the identity, the
  path and the payload, the score it returns is the sum of the weights of the tags it
  returns (SQLi 5, XSS 5, Bruteforce 3, Scanner 2, Low-Risk 0), and so is never negative.
\<close>

theorem risk_is_sum_of_tag_weights:
  "fst (fst (analyze_request fa ip path d)) =
     sum_list (map tag_weight (snd (fst (analyze_request fa ip path d))))
   \<and> 0 \<le> fst (fst (analyze_request fa ip path d))"
  by (simp add: analyze_request_def Let_def tag_weight_simps)

subsection \<open>Random draws\<close>

lemma choice_in: "xs \<noteq> [] \<Longrightarrow> choice xs d \<in> set xs"
  by (simp add: choice_def)

lemma randint_range: "a \<le> b \<Longrightarrow> a \<le> randint a b d \<and> randint a b d \<le> b"
proof -
  assume ab: "a \<le> b"
  have "d mod (b - a + 1) < b - a + 1" by simp
  then show ?thesis using ab unfolding randint_def by linarith
qed

lemma length_remove_at: "i < length xs \<Longrightarrow> length (remove_at i xs) = length xs - 1"
  by (auto simp: remove_at_def min_def)

lemma set_remove_at: "set (remove_at i xs) \<subseteq> set xs"
  unfolding remove_at_def using set_take_subset [of i xs] set_drop_subset [of "Suc i" xs]
  by auto

lemma distinct_remove_at:
  assumes "distinct xs" "i < length xs"
  shows "distinct (remove_at i xs) \<and> xs ! i \<notin> set (remove_at i xs)"
proof -
  have "xs = take i xs @ xs ! i # drop (Suc i) xs"
    using assms(2) by (simp add: id_take_nth_drop)
  then have "distinct (take i xs @ xs ! i # drop (Suc i) xs)"
    using assms(1) by simp
  then show ?thesis by (auto simp: remove_at_def)
qed

lemma length_sample: "k \<le> length pool \<Longrightarrow> length (sample pool k ds) = k"
proof (induction k arbitrary: pool ds)
  case 0
  show ?case by simp
next
  case (Suc k)
  then have ne: "pool \<noteq> []" by auto
  let ?i = "ds 0 mod length pool"
  have i: "?i < length pool" using ne by simp
  have "k \<le> length (remove_at ?i pool)"
    using Suc.prems i by (simp add: length_remove_at)
  then have "length (sample (remove_at ?i pool) k (\<lambda>j. ds (Suc j))) = k"
    by (rule Suc.IH)
  then show ?case using ne by (simp add: Let_def)
qed

lemma set_sample: "set (sample pool k ds) \<subseteq> set pool"
proof (induction k arbitrary: pool ds)
  case 0
  show ?case by simp
next
  case (Suc k)
  show ?case
  proof (cases "pool = []")
    case True
    then show ?thesis by simp
  next
    case False
    let ?i = "ds 0 mod length pool"
    have i: "?i < length pool" using False by simp
    have "set (sample (remove_at ?i pool) k (\<lambda>j. ds (Suc j))) \<subseteq> set pool"
      using Suc.IH [of "remove_at ?i pool"] set_remove_at [of ?i pool] by blast
    then show ?thesis using False i by (simp add: Let_def)
  qed
qed

lemma distinct_sample: "distinct pool \<Longrightarrow> distinct (sample pool k ds)"
proof (induction k arbitrary: pool ds)
  case 0
  show ?case by simp
next
  case (Suc k)
  show ?case
  proof (cases "pool = []")
    case True
    then show ?thesis by simp
  next
    case False
    let ?i = "ds 0 mod length pool"
    let ?rest = "sample (remove_at ?i pool) k (\<lambda>j. ds (Suc j))"
    have i: "?i < length pool" using False by simp
    have d: "distinct (remove_at ?i pool)" and n: "pool ! ?i \<notin> set (remove_at ?i pool)"
      using distinct_remove_at [OF Suc.prems i] by simp_all
    have "distinct ?rest" using d by (rule Suc.IH)
    moreover have "pool ! ?i \<notin> set ?rest"
      using n set_sample [of "remove_at ?i pool" k] by blast
    ultimately show ?thesis using False by (simp add: Let_def)
  qed
qed

subsection \<open>Response generators\<close>

lemma join_nonempty: "xs \<noteq> [] \<Longrightarrow> [] \<notin> set xs \<Longrightarrow> join sep xs \<noteq> []"
  by (induction sep xs rule: join.induct) auto

lemma fake_files_facts: "length FAKE_FILES = 7" "distinct FAKE_FILES" "[] \<notin> set FAKE_FILES"
  by (simp_all add: FAKE_FILES_def)

lemma fake_ls_listing:
  "\<exists>files. fake_ls r = join NL files \<and> 3 \<le> length files \<and> length files \<le> 7
      \<and> set files \<subseteq> set FAKE_FILES \<and> distinct files"
proof -
  let ?k = "randint 3 (length FAKE_FILES) (ls_size_draw r)"
  let ?files = "sample FAKE_FILES ?k (ls_draws r)"
  have k: "3 \<le> ?k \<and> ?k \<le> 7"
    using randint_range [of 3 7 "ls_size_draw r"] by (simp add: fake_files_facts)
  then have "length ?files = ?k" by (simp add: length_sample fake_files_facts)
  with k have "3 \<le> length ?files \<and> length ?files \<le> 7" by simp
  moreover have "set ?files \<subseteq> set FAKE_FILES" by (rule set_sample)
  moreover have "distinct ?files" by (rule distinct_sample) (rule fake_files_facts)
  moreover have "fake_ls r = join NL ?files" by (simp add: fake_ls_def Let_def)
  ultimately show ?thesis by blast
qed

lemma fake_ls_nonempty: "fake_ls r \<noteq> []"
proof -
  obtain files where f: "fake_ls r = join NL files" "3 \<le> length files"
    "set files \<subseteq> set FAKE_FILES"
    using fake_ls_listing by blast
  have "files \<noteq> []" using f(2) by auto
  moreover have "[] \<notin> set files" using f(3) fake_files_facts(3) by blast
  ultimately show ?thesis using f(1) by (simp add: join_nonempty)
qed

lemma fake_error_in_pool: "fake_error r \<in> set errors"
  unfolding fake_error_def by (rule choice_in) (simp add: errors_def)

lemma fake_error_nonempty: "fake_error r \<noteq> []"
  using fake_error_in_pool [of r] by (auto simp: errors_def)

lemma juicy_secrets_nonempty: "juicy_secrets r \<noteq> []"
  by (simp add: juicy_secrets_def NL_def)

lemma juicy_secrets_is_leaked: "is_leaked_credentials (juicy_secrets r)"
  by (simp add: is_leaked_credentials_def juicy_secrets_def NL_def)

lemma fake_admin_page_nonempty: "fake_admin_page r \<noteq> []"
  by (simp add: fake_admin_page_def NL_def)

text \<open>
  Claim C5. For every tag (the empty one included), every integer score, every path (the
  empty one included) and every outcome of the random draws, the response selector returns
  a text that is not empty. The selector has no failing branch: each list it draws from is
  a constant that is not empty, and the sample it takes is never larger than the pool.
\<close>

theorem generate_response_nonempty:
  "generate_response r attack_type risk_score path \<noteq> []"
  by (simp add: generate_response_def Let_def fake_ls_nonempty fake_error_nonempty
      juicy_secrets_nonempty fake_admin_page_nonempty fake_account_locked_def)

subsection \<open>The login route\<close>

lemma sqli_payload:
  "is_sqli (SQLI_LOGIN @ '' '' @ ''test'')" "\<not> is_xss (SQLI_LOGIN @ '' '' @ ''test'')"
  by code_simp+

lemma admin_not_scanner:
  "\<not> list_ex (\<lambda>p. str_in p (lower ''/admin''))
       [''phpmyadmin'', ''wp-admin'', ''.env'', ''config'']"
  by code_simp

lemma analyze_sqli_admin:
  "analyze_request fa ip ''/admin'' (SQLI_LOGIN @ '' '' @ ''test'') =
     (if fa ip + 1 > 5 then (8, [''SQLi'', ''Bruteforce'']) else (5, [''SQLi'']),
      fa(ip := fa ip + 1))"
  using sqli_payload admin_not_scanner
  by (simp add: analyze_request_def Let_def)

lemma fake_login_post:
  assumes "req_method req = ''POST''" "geo_ok req"
  shows "fst (fake_login s req) = Inr (''Invalid credentials. Please try again.'', 401)
     \<and> failed_attempts (snd (fake_login s req)) =
          snd (analyze_request (failed_attempts s)
            (get_or (headers req) ''X-Forwarded-For'' (remote_addr req)) (req_path req)
            (get_or (form req) ''username'' [] @ '' '' @ get_or (form req) ''password'' []))
     \<and> (\<exists>e. log_file (snd (fake_login s req)) = log_file s @ [e]
           \<and> (ev_risk_score e, ev_tags e) = fst (analyze_request (failed_attempts s)
                (get_or (headers req) ''X-Forwarded-For'' (remote_addr req)) (req_path req)
                (get_or (form req) ''username'' [] @ '' '' @ get_or (form req) ''password'' []))
           \<and> ev_path e = req_path req)"
  using assms
  by (auto simp: fake_login_def Let_def geo_ok_def log_event_def split: sum.splits prod.splits)

lemma sqli_post_facts:
  "req_method sqli_post = ''POST''" "req_path sqli_post = ''/admin''"
  "form sqli_post ''username'' = Some SQLI_LOGIN" "form sqli_post ''password'' = Some ''test''"
  by (simp_all add: sqli_post_def)

lemma sqli_post_geo: "geo_ok sqli_post"
  by (simp add: geo_ok_def sqli_post_def get_or_def geo_value_def)

text \<open>
  Claim C1, as stated, fails. With all counters at zero, the POST to \<open>/admin\<close> with
  username \<open>admin' OR '1'='1\<close> and password \<open>test\<close> is answered with the text
  \<open>Invalid credentials. Please try again.\<close> and status 401, which is not a
  leaked-credentials artifact: the login route never calls the response selector.
\<close>

theorem sqli_login_response_counterexample:
  "fst (fake_login state0 sqli_post) = Inr (''Invalid credentials. Please try again.'', 401)
   \<and> \<not> is_leaked_credentials ''Invalid credentials. Please try again.''"
  by code_simp

text \<open>
  Claim C1, amended. For every process state, a POST to \<open>/admin\<close> with username
  \<open>admin' OR '1'='1\<close> and password \<open>test\<close> whose geolocation headers convert logs one
  event whose tag list includes \<open>SQLi\<close> and whose risk score is at least 5, and is answered
  with \<open>Invalid credentials. Please try again.\<close> and status 401. The leaked-credentials
  artifact is what the response selector returns for the primary tag, the score and the
  path of that event.
\<close>

theorem sqli_login_post:
  assumes "req_method req = ''POST''" and "req_path req = ''/admin''"
    and "form req ''username'' = Some SQLI_LOGIN" and "form req ''password'' = Some ''test''"
    and "geo_ok req"
  shows "fst (fake_login s req) = Inr (''Invalid credentials. Please try again.'', 401)
    \<and> (\<exists>e. log_file (snd (fake_login s req)) = log_file s @ [e]
          \<and> ''SQLi'' \<in> set (ev_tags e) \<and> 5 \<le> ev_risk_score e
          \<and> generate_response r (hd (ev_tags e)) (ev_risk_score e) (ev_path e)
              = juicy_secrets r)"
proof -
  let ?ip = "get_or (headers req) ''X-Forwarded-For'' (remote_addr req)"
  let ?payload = "get_or (form req) ''username'' [] @ '' '' @ get_or (form req) ''password'' []"
  have p: "?payload = SQLI_LOGIN @ '' '' @ ''test''"
    using assms(3,4) by (simp add: get_or_def)
  have resp: "fst (fake_login s req) = Inr (''Invalid credentials. Please try again.'', 401)"
    using fake_login_post [OF assms(1,5), of s] by blast
  obtain e where e: "log_file (snd (fake_login s req)) = log_file s @ [e]"
    and sc: "(ev_risk_score e, ev_tags e) =
       fst (analyze_request (failed_attempts s) ?ip (req_path req) ?payload)"
    using fake_login_post [OF assms(1,5), of s] by blast
  have "(ev_risk_score e, ev_tags e) =
     (if failed_attempts s ?ip + 1 > 5 then (8, [''SQLi'', ''Bruteforce'']) else (5, [''SQLi'']))"
    using sc unfolding p assms(2) analyze_sqli_admin by simp
  then have t: "''SQLi'' \<in> set (ev_tags e)" "5 \<le> ev_risk_score e" "hd (ev_tags e) = ''SQLi''"
    by (auto split: if_splits)
  have "generate_response r (hd (ev_tags e)) (ev_risk_score e) (ev_path e) = juicy_secrets r"
    using t(2) unfolding t(3) by (simp add: generate_response_def Let_def)
  with resp e t show ?thesis by blast
qed

theorem sqli_login_post_witness:
  "req_method sqli_post = ''POST'' \<and> req_path sqli_post = ''/admin''
    \<and> form sqli_post ''username'' = Some SQLI_LOGIN
    \<and> form sqli_post ''password'' = Some ''test'' \<and> geo_ok sqli_post
    \<and> fst (fake_login state0 sqli_post) = Inr (''Invalid credentials. Please try again.'', 401)
    \<and> (\<exists>e. log_file (snd (fake_login state0 sqli_post)) = log_file state0 @ [e]
          \<and> ''SQLi'' \<in> set (ev_tags e) \<and> 5 \<le> ev_risk_score e
          \<and> generate_response draws0 (hd (ev_tags e)) (ev_risk_score e) (ev_path e)
              = juicy_secrets draws0)"
  using sqli_login_post [OF sqli_post_facts sqli_post_geo, of state0 draws0]
    sqli_post_facts sqli_post_geo by simp

text \<open>
  Claim C10, at a failing input. A POST to \<open>/login\<close> whose \<open>X-Lat\<close> header is the text
  \<open>north\<close> is not answered with \<open>Invalid credentials. Please try again.\<close> and status
  401: the conversion of the header raises \<open>ValueError\<close> while the event is built, after
  the attempt has been counted and before anything is logged or returned.
\<close>

theorem login_post_bad_latitude:
  "req_method bad_geo_post = ''POST'' \<and> req_path bad_geo_post = ''/login''
   \<and> fst (fake_login state0 bad_geo_post) = Inl ValueError
   \<and> failed_attempts (snd (fake_login state0 bad_geo_post)) ''203.0.113.7'' = 1
   \<and> log_file (snd (fake_login state0 bad_geo_post)) = []"
  by code_simp

subsection \<open>Brute-force threshold\<close>

lemma analyze_request_counters:
  "snd (analyze_request fa ip path d) =
     (if path \<in> set [''/admin'', ''/login''] then fa(ip := fa ip + 1) else fa)"
  by (simp add: analyze_request_def Let_def)

lemma bruteforce_tag:
  "''Bruteforce'' \<in> set (snd (fst (analyze_request fa ip path d))) \<longleftrightarrow>
     path \<in> set [''/admin'', ''/login''] \<and> 5 < fa ip + 1"
  by (simp add: analyze_request_def Let_def)

lemma counters_after_count:
  "counters_after fa xs ip = fa ip + int (prior_attempts ip xs)"
proof (induction xs arbitrary: fa)
  case Nil
  show ?case by (simp add: prior_attempts_def)
next
  case (Cons x xs)
  obtain i p d where x: "x = (i, p, d)" by (cases x)
  show ?case
    unfolding x counters_after.simps Cons.IH analyze_request_counters
    by (simp add: prior_attempts_def)
qed

text \<open>
  Claim C3. Take an identity whose counter is 0 and any history of interactions, of this
  identity and of others, on any paths. The counter of the identity after the history is the
  number of its own interactions on \<open>/admin\<close> or \<open>/login\<close> in it: what other identities do
  does not change it. Its next interaction on \<open>/admin\<close> or \<open>/login\<close> is tagged
  \<open>Bruteforce\<close> exactly when at least five came before, so the first to the fifth are not
  tagged and the sixth and every later one are. The statement holds for every identity, so
  an identity with fewer than five earlier attempts is not tagged, whatever the others did.
\<close>

theorem bruteforce_from_sixth_attempt:
  assumes "fa ip = 0" and "path \<in> set [''/admin'', ''/login'']"
  shows "counters_after fa pre ip = int (prior_attempts ip pre)
    \<and> (''Bruteforce'' \<in> set (snd (fst (analyze_request (counters_after fa pre) ip path d)))
         \<longleftrightarrow> 5 \<le> prior_attempts ip pre)"
  using assms by (auto simp: bruteforce_tag counters_after_count)

theorem bruteforce_from_sixth_attempt_witness:
  "failed_attempts state0 ''203.0.113.7'' = 0 \<and> failed_attempts state0 ''198.51.100.9'' = 0
   \<and> ''/admin'' \<in> set [''/admin'', ''/login'']
   \<and> prior_attempts ''203.0.113.7'' history = 5 \<and> prior_attempts ''198.51.100.9'' history = 1
   \<and> ''Bruteforce'' \<in> set (snd (fst (analyze_request
         (counters_after (failed_attempts state0) history) ''203.0.113.7'' ''/admin'' [])))
   \<and> ''Bruteforce'' \<notin> set (snd (fst (analyze_request
         (counters_after (failed_attempts state0) history) ''198.51.100.9'' ''/admin'' [])))"
proof -
  have z: "failed_attempts state0 ''203.0.113.7'' = 0" "failed_attempts state0 ''198.51.100.9'' = 0"
    by (simp_all add: state0_def)
  have p: "''/admin'' \<in> set [''/admin'', ''/login'']" by simp
  have n: "prior_attempts ''203.0.113.7'' history = 5" "prior_attempts ''198.51.100.9'' history = 1"
    by (simp_all add: prior_attempts_def history_def)
  show ?thesis
    using bruteforce_from_sixth_attempt
        [of "failed_attempts state0" "''203.0.113.7''" "''/admin''" history "[]"]
      bruteforce_from_sixth_attempt
        [of "failed_attempts state0" "''198.51.100.9''" "''/admin''" history "[]"] z p n
    by simp
qed

subsection \<open>Counters over the life of the process\<close>

lemma fake_login_counters:
  "failed_attempts (snd (fake_login s req)) =
     snd (analyze_request (failed_attempts s) (client req) (req_path req)
        (if req_method req = ''POST''
         then get_or (form req) ''username'' [] @ '' '' @ get_or (form req) ''password'' []
         else []))"
  by (simp add: fake_login_def Let_def client_def log_event_def split: sum.splits prod.splits)

lemma catch_all_counters:
  "failed_attempts (snd (catch_all r s any_path req)) =
     snd (analyze_request (failed_attempts s) (client req) (''/'' @ any_path)
        (if req_method req = ''POST'' then body req else []))"
  by (simp add: catch_all_def Let_def client_def log_event_def split: sum.splits prod.splits)

lemma handle_counters:
  "failed_attempts (snd (handle s c)) =
    (case attempt_of c of None \<Rightarrow> failed_attempts s
     | Some ip \<Rightarrow> (failed_attempts s)(ip := failed_attempts s ip + 1))"
proof (cases c)
  case Index
  then show ?thesis by (simp add: index_def)
next
  case (FakeLogin req)
  then show ?thesis
    by (simp add: fake_login_counters analyze_request_counters del: set_simps list.set)
next
  case (CatchAll r any_path req)
  then show ?thesis
    by (simp add: catch_all_counters analyze_request_counters del: set_simps list.set)
qed

lemma run_counters:
  "failed_attempts (run s cs) ip =
     failed_attempts s ip + int (length (filter (\<lambda>c. attempt_of c = Some ip) cs))"
proof (induction cs arbitrary: s)
  case Nil
  show ?case by simp
next
  case (Cons c cs)
  show ?case
    unfolding run.simps Cons.IH handle_counters
    by (cases "attempt_of c") auto
qed

text \<open>
  Claim C6. Every call of a view function leaves the counters as they were, except that a
  call targeting \<open>/admin\<close> or \<open>/login\<close> adds exactly one to the counter of its identity;
  this also holds when the handler is left by an exception. Over any sequence of calls the
  counter of an identity therefore grows by the number of its calls on those paths, and is
  never smaller at the end than at the start.
\<close>

theorem counters_never_decrease:
  "failed_attempts (snd (handle s c)) =
    (case attempt_of c of None \<Rightarrow> failed_attempts s
     | Some ip \<Rightarrow> (failed_attempts s)(ip := failed_attempts s ip + 1))
   \<and> failed_attempts (run s cs) ip =
       failed_attempts s ip + int (length (filter (\<lambda>c. attempt_of c = Some ip) cs))
   \<and> failed_attempts s ip \<le> failed_attempts (run s cs) ip"
  using handle_counters [of s c] run_counters [of s cs ip] by simp

subsection \<open>A scanner probe\<close>

lemma empty_payload: "\<not> is_sqli []" "\<not> is_xss []"
  by code_simp+

lemma phpmyadmin_is_scanner:
  "list_ex (\<lambda>p. str_in p (lower ''/phpmyadmin''))
     [''phpmyadmin'', ''wp-admin'', ''.env'', ''config'']"
  by code_simp

lemma analyze_phpmyadmin:
  "analyze_request fa ip ''/phpmyadmin'' [] = ((2, [''Scanner'']), fa)"
  using empty_payload phpmyadmin_is_scanner
  by (simp add: analyze_request_def Let_def)


lemma catch_all_phpmyadmin:
  assumes d: "(if req_method req = ''POST'' then body req else []) = []" and "geo_ok req"
  shows "fst (catch_all r s ''phpmyadmin'' req) =
      Inr (generate_response r ''Scanner'' 2 ''/phpmyadmin'', 200)
    \<and> failed_attempts (snd (catch_all r s ''phpmyadmin'' req)) = failed_attempts s
    \<and> (\<exists>e. log_file (snd (catch_all r s ''phpmyadmin'' req)) = log_file s @ [e]
          \<and> ev_risk_score e = 2 \<and> ev_tags e = [''Scanner''])"
proof -
  have p: "''/'' @ ''phpmyadmin'' = ''/phpmyadmin''" by simp
  show ?thesis
    using assms(2) unfolding catch_all_def Let_def d p analyze_phpmyadmin
    by (auto simp: geo_ok_def log_event_def split: sum.splits)
qed


subsection \<open>Signature matcher\<close>

lemma lower_char_idem: "lower_char (lower_char c) = lower_char c"
  by (simp add: lower_char_def UPPER_def LOWER_def ASCII_UPPER_def ASCII_LOWER_def
      LATIN1_UPPER_def LATIN1_LOWER_def)

lemma lower_idem: "lower (lower s) = lower s"
  by (simp add: lower_def lower_char_idem)

text \<open>
  Claim C8. \<open>is_sqli\<close> and \<open>is_xss\<close> are functions of the text alone: they read no state,
  so two calls on the same text give the same result. On every text each gives the result it
  gives on the lower-cased text.
\<close>

theorem matcher_case_insensitive:
  "is_sqli (lower t) = is_sqli t \<and> is_xss (lower t) = is_xss t"
  by (simp add: is_sqli_def is_xss_def lower_idem)

subsection \<open>Response selector on unknown tags\<close>

text \<open>
  Claim C4, as stated, fails. The tag \<open>PortScanner\<close> is none of the four known tags, the
  path \<open>/index\<close> does not contain \<open>admin\<close>, and yet at score 0 the selector does not
  return a message of the error pool: it tests whether the tag contains \<open>Scanner\<close>, and
  returns a directory listing.
\<close>

theorem unknown_tag_counterexample:
  "''PortScanner'' \<notin> set [''Scanner'', ''SQLi'', ''XSS'', ''Bruteforce'']
   \<and> \<not> str_in ''admin'' (lower ''/index'')
   \<and> generate_response draws0 ''PortScanner'' 0 ''/index'' = fake_ls draws0
   \<and> generate_response draws0 ''PortScanner'' 0 ''/index'' \<notin> set errors"
  by code_simp

lemma normal_tag:
  "\<not> str_in ''Scanner'' ''Normal''" "\<not> str_in ''SQLi'' ''Normal''"
  "\<not> str_in ''XSS'' ''Normal''" "\<not> str_in ''Bruteforce'' ''Normal''"
  by simp_all

text \<open>
  Claim C4, amended. For every tag that contains none of \<open>Scanner\<close>, \<open>SQLi\<close>, \<open>XSS\<close> and
  \<open>Bruteforce\<close> (the empty tag is one), every score, every path and every outcome of the
  draws, the selector returns the admin-dashboard fragment when the lower-cased path
  contains \<open>admin\<close>, and otherwise a message of the error pool.
\<close>

theorem unknown_tag_falls_through:
  assumes "\<not> str_in ''Scanner'' tag" and "\<not> str_in ''SQLi'' tag"
    and "\<not> str_in ''XSS'' tag" and "\<not> str_in ''Bruteforce'' tag"
  shows "generate_response r tag score path =
      (if str_in ''admin'' (lower path) then fake_admin_page r else fake_error r)
    \<and> fake_error r \<in> set errors"
  using assms normal_tag fake_error_in_pool [of r]
  by (simp add: generate_response_def Let_def)

theorem unknown_tag_falls_through_witness:
  "\<not> str_in ''Scanner'' ''Low-Risk'' \<and> \<not> str_in ''SQLi'' ''Low-Risk''
    \<and> \<not> str_in ''XSS'' ''Low-Risk'' \<and> \<not> str_in ''Bruteforce'' ''Low-Risk''
    \<and> \<not> str_in ''Scanner'' [] \<and> \<not> str_in ''SQLi'' []
    \<and> \<not> str_in ''XSS'' [] \<and> \<not> str_in ''Bruteforce'' []
    \<and> generate_response draws0 ''Low-Risk'' 0 ''/Admin/users'' = fake_admin_page draws0
    \<and> generate_response draws0 [] 7 ''/index'' = fake_error draws0
    \<and> fake_error draws0 \<in> set errors"
proof -
  have h: "\<not> str_in ''Scanner'' ''Low-Risk''" "\<not> str_in ''SQLi'' ''Low-Risk''"
    "\<not> str_in ''XSS'' ''Low-Risk''" "\<not> str_in ''Bruteforce'' ''Low-Risk''"
    by simp_all
  have e: "\<not> str_in ''Scanner'' []" "\<not> str_in ''SQLi'' []"
    "\<not> str_in ''XSS'' []" "\<not> str_in ''Bruteforce'' []"
    by simp_all
  have a: "str_in ''admin'' (lower ''/Admin/users'')" by code_simp
  have b: "\<not> str_in ''admin'' (lower ''/index'')" by code_simp
  show ?thesis
    using unknown_tag_falls_through [OF h, of draws0 0 "''/Admin/users''"]
      unknown_tag_falls_through [OF e, of draws0 7 "''/index''"] h e a b
    by simp
qed

subsection \<open>Shell session\<close>

lemma partition_nl_line:
  "CHR 0x0A \<notin> set x \<Longrightarrow> partition_nl (x @ NL @ rest) = (x, rest)"
  by (simp add: partition_nl_def NL_def takeWhile_append1 dropWhile_append
      takeWhile_eq_all_conv dropWhile_eq_Nil_conv)

lemma drain_exit_line:
  assumes "CHR 0x0A \<in> set (buffer s) \<or> CHR 0x0D \<in> set (buffer s)"
    and "strip (fst (partition_nl (buffer s))) \<in> set [''exit'', ''quit'']"
  shows "drain s =
    (s\<lparr>buffer := snd (partition_nl (buffer s)),
       commands := commands s @ [strip (fst (partition_nl (buffer s)))],
       sent := sent s @ [''logout'' @ NL], closed := True\<rparr>, True)"
proof -
  obtain line rest where lr: "partition_nl (buffer s) = (line, rest)"
    by (metis surj_pair)
  have ne: "strip line \<noteq> []" using assms(2) lr by auto
  show ?thesis
    using assms ne lr by (simp add: drain.simps [of s] Let_def)
qed

lemma drain_other_line:
  assumes "CHR 0x0A \<notin> set x" and "strip x \<notin> set [''exit'', ''quit'']"
    and "buffer s = x @ NL @ rest"
  shows "drain s =
    drain (s\<lparr>buffer := rest, commands := commands s @ logged [x],
             sent := sent s @ replies_to x\<rparr>)"
proof -
  have c: "CHR 0x0A \<in> set (buffer s) \<or> CHR 0x0D \<in> set (buffer s)"
    using assms(3) by (simp add: NL_def)
  have p: "partition_nl (buffer s) = (x, rest)"
    using partition_nl_line [OF assms(1)] assms(3) by simp
  show ?thesis
  proof (cases "strip x = []")
    case True
    then show ?thesis
      using c p by (simp add: drain.simps [of s] Let_def logged_def replies_to_def)
  next
    case False
    then show ?thesis
      using c p assms(2) by (simp add: drain.simps [of s] Let_def logged_def replies_to_def)
  qed
qed

text \<open>
  Where the claim of C9 holds. Let the buffer hold any number of lines that each end in a
  line feed and are no exit keywords, then a line that ends in a line feed and is \<open>exit\<close> or
  \<open>quit\<close> once stripped, then any text. The inner loop answers and logs the earlier lines,
  logs the keyword, sends the logout banner, closes the channel and makes the handler
  return; the text after the keyword's line is left in the buffer, unread.
\<close>

lemma drain_lines_then_exit:
  assumes "\<forall>x \<in> set ls. CHR 0x0A \<notin> set x \<and> strip x \<notin> set [''exit'', ''quit'']"
    and "CHR 0x0A \<notin> set l" and "strip l \<in> set [''exit'', ''quit'']"
    and "buffer s = lf_lines ls @ l @ NL @ tail"
  shows "drain s =
    (s\<lparr>buffer := tail, commands := commands s @ logged ls @ [strip l],
       sent := sent s @ concat (map replies_to ls) @ [''logout'' @ NL],
       closed := True\<rparr>, True)"
  using assms(1,4)
proof (induction ls arbitrary: s)
  case Nil
  then have b: "buffer s = l @ NL @ tail" by (simp add: lf_lines_def)
  have p: "partition_nl (buffer s) = (l, tail)"
    using partition_nl_line [OF assms(2)] b by simp
  have c: "CHR 0x0A \<in> set (buffer s) \<or> CHR 0x0D \<in> set (buffer s)"
    using b by (simp add: NL_def)
  show ?case
    using drain_exit_line [OF c] p assms(3) by (simp add: logged_def)
next
  case (Cons x ls)
  have x: "CHR 0x0A \<notin> set x" "strip x \<notin> set [''exit'', ''quit'']"
    using Cons.prems(1) by simp_all
  have rest: "\<forall>y \<in> set ls. CHR 0x0A \<notin> set y \<and> strip y \<notin> set [''exit'', ''quit'']"
    using Cons.prems(1) by simp
  have b: "buffer s = x @ NL @ (lf_lines ls @ l @ NL @ tail)"
    using Cons.prems(2) by (simp add: lf_lines_def)
  define s1 where
    "s1 = s\<lparr>buffer := lf_lines ls @ l @ NL @ tail, commands := commands s @ logged [x],
             sent := sent s @ replies_to x\<rparr>"
  have "drain s = drain s1"
    unfolding s1_def by (rule drain_other_line [OF x b])
  also have "\<dots> =
    (s1\<lparr>buffer := tail, commands := commands s1 @ logged ls @ [strip l],
        sent := sent s1 @ concat (map replies_to ls) @ [''logout'' @ NL],
        closed := True\<rparr>, True)"
    by (rule Cons.IH [OF rest]) (simp add: s1_def)
  finally show ?case by (simp add: s1_def logged_def)
qed

text \<open>
  The same for the handler: in any state of a session, a chunk that completes such lines
  ends the session, and what is received later changes nothing.
\<close>

lemma serve_lines_then_exit:
  assumes "\<forall>x \<in> set ls. CHR 0x0A \<notin> set x \<and> strip x \<notin> set [''exit'', ''quit'']"
    and "CHR 0x0A \<notin> set l" and "strip l \<in> set [''exit'', ''quit'']"
    and "buffer s @ d = lf_lines ls @ l @ NL @ tail"
  shows "serve s (Data d # later) =
    s\<lparr>buffer := tail, commands := commands s @ logged ls @ [strip l],
      sent := sent s @ concat (map replies_to ls) @ [''logout'' @ NL],
      closed := True\<rparr>"
proof -
  have "buffer (s\<lparr>buffer := buffer s @ d\<rparr>) = lf_lines ls @ l @ NL @ tail"
    using assms(4) by simp
  from drain_lines_then_exit [OF assms(1,2,3) this] show ?thesis by simp
qed

lemma serve_lines_then_exit_example:
  "handle_client
     (Data (lf_lines [''ls'', ''  '', ''whoami'' @ [CHR 0x0D]] @ '' quit'' @ [CHR 0x0D] @ NL
            @ ''pwd'' @ NL) # later) =
   session0\<lparr>buffer := ''pwd'' @ NL, commands := [''ls'', ''whoami'', ''quit''],
     sent := sent session0 @
       [''config.txt  users.db  backup.sql'' @ NL, ''$ '', ''$ '', ''root'' @ NL, ''$ '',
        ''logout'' @ NL],
     closed := True\<rparr>"
proof -
  have s: "strip ''ls'' = ''ls''" "strip ''  '' = []"
    "strip (''whoami'' @ [CHR 0x0D]) = ''whoami''"
    "strip ('' quit'' @ [CHR 0x0D]) = ''quit''"
    by code_simp+
  have h: "\<forall>x \<in> set [''ls'', ''  '', ''whoami'' @ [CHR 0x0D]].
      CHR 0x0A \<notin> set x \<and> strip x \<notin> set [''exit'', ''quit'']"
    using s by simp
  have l: "CHR 0x0A \<notin> set ('' quit'' @ [CHR 0x0D])"
    "strip ('' quit'' @ [CHR 0x0D]) \<in> set [''exit'', ''quit'']"
    using s by simp_all
  have b: "buffer session0 @
      (lf_lines [''ls'', ''  '', ''whoami'' @ [CHR 0x0D]] @ '' quit'' @ [CHR 0x0D] @ NL
        @ ''pwd'' @ NL)
    = lf_lines [''ls'', ''  '', ''whoami'' @ [CHR 0x0D]] @ ('' quit'' @ [CHR 0x0D]) @ NL
        @ (''pwd'' @ NL)"
    by (simp add: session0_def)
  show ?thesis
    unfolding handle_client_def serve_lines_then_exit [OF h l b]
    using s by (simp add: logged_def replies_to_def reply_def session0_def)
qed

lemma drain_exit:
  assumes "no_exit (commands s)" and "drain s = (s', b)"
  shows "if b
     then closed s' \<and> sent s' \<noteq> [] \<and> last (sent s') = ''logout'' @ NL
        \<and> commands s' \<noteq> [] \<and> last (commands s') \<in> set [''exit'', ''quit'']
        \<and> no_exit (butlast (commands s'))
     else no_exit (commands s') \<and> closed s' = closed s"
  using assms
proof (induction s arbitrary: s' b rule: drain.induct)
  case (1 s)
  show ?case
  proof (cases "CHR 0x0A \<in> set (buffer s) \<or> CHR 0x0D \<in> set (buffer s)")
    case False
    then have "drain s = (s, False)" by (simp add: drain.simps [of s])
    with "1.prems" show ?thesis by auto
  next
    case True
    obtain line rest where lr: "(line, rest) = partition_nl (buffer s)"
      by (metis surj_pair)
    define command where "command = strip line"
    define s1 where "s1 = s\<lparr>buffer := rest\<rparr>"
    define s2 where "s2 = s1\<lparr>commands := commands s1 @ [command]\<rparr>"
    consider (blank) "command = []"
      | (leave) "command \<noteq> []" "command \<in> set [''exit'', ''quit'']"
      | (other) "command \<noteq> []" "command \<notin> set [''exit'', ''quit'']"
      by blast
    then show ?thesis
    proof cases
      case blank
      have d: "drain s = drain (s1\<lparr>sent := sent s1 @ [''$ '']\<rparr>)"
        using True lr [symmetric] blank
        by (simp add: drain.simps [of s] Let_def command_def s1_def)
      have n: "no_exit (commands (s1\<lparr>sent := sent s1 @ [''$ '']\<rparr>))"
        using "1.prems"(1) by (simp add: s1_def)
      have "if b
        then closed s' \<and> sent s' \<noteq> [] \<and> last (sent s') = ''logout'' @ NL
          \<and> commands s' \<noteq> [] \<and> last (commands s') \<in> set [''exit'', ''quit'']
          \<and> no_exit (butlast (commands s'))
        else no_exit (commands s')
          \<and> closed s' = closed (s1\<lparr>sent := sent s1 @ [''$ '']\<rparr>)"
        using "1.IH"(1) [OF True refl lr s1_def command_def blank n] "1.prems"(2) d
        by simp
      then show ?thesis by (auto simp: s1_def split: if_splits)
    next
      case leave
      have d: "drain s = (s2\<lparr>sent := sent s2 @ [''logout'' @ NL], closed := True\<rparr>, True)"
        using True lr [symmetric] leave
        by (simp add: drain.simps [of s] Let_def command_def s1_def s2_def)
      then have s': "s' = s2\<lparr>sent := sent s2 @ [''logout'' @ NL], closed := True\<rparr>" and b: "b"
        using "1.prems"(2) by simp_all
      show ?thesis
        using leave "1.prems"(1) unfolding s' by (simp add: b s2_def s1_def)
    next
      case other
      have d: "drain s = drain (s2\<lparr>sent := sent s2 @ [reply command, ''$ '']\<rparr>)"
        using True lr [symmetric] other
        by (simp add: drain.simps [of s] Let_def command_def s1_def s2_def)
      have n: "no_exit (commands (s2\<lparr>sent := sent s2 @ [reply command, ''$ '']\<rparr>))"
        using "1.prems"(1) other(2) by (auto simp: s1_def s2_def no_exit_def)
      have "if b
        then closed s' \<and> sent s' \<noteq> [] \<and> last (sent s') = ''logout'' @ NL
          \<and> commands s' \<noteq> [] \<and> last (commands s') \<in> set [''exit'', ''quit'']
          \<and> no_exit (butlast (commands s'))
        else no_exit (commands s')
          \<and> closed s' = closed (s2\<lparr>sent := sent s2 @ [reply command, ''$ '']\<rparr>)"
        using "1.IH"(2) [OF True refl lr s1_def command_def other(1) s2_def other(2) n]
          "1.prems"(2) d
        by simp
      then show ?thesis by (auto simp: s1_def s2_def split: if_splits)
    qed
  qed
qed

lemma serve_exit:
  assumes "no_exit (commands s)" and "\<not> no_exit (commands (serve s input))"
  shows "closed (serve s input) \<and> last (sent (serve s input)) = ''logout'' @ NL
     \<and> last (commands (serve s input)) \<in> set [''exit'', ''quit'']
     \<and> no_exit (butlast (commands (serve s input)))
     \<and> serve s (input @ later) = serve s input"
  using assms
proof (induction s input rule: serve.induct)
  case (1 s)
  then show ?case by simp
next
  case (2 s rest)
  then show ?case by (simp add: hangup_def)
next
  case (3 s d rest)
  obtain s' b where dr: "drain (s\<lparr>buffer := buffer s @ d\<rparr>) = (s', b)"
    by (metis surj_pair)
  have n: "no_exit (commands (s\<lparr>buffer := buffer s @ d\<rparr>))"
    using "3.prems"(1) by simp
  note ex = drain_exit [OF n dr]
  show ?case
  proof (cases b)
    case True
    then show ?thesis using ex dr by simp
  next
    case False
    then have n': "no_exit (commands s')" using ex by simp
    have sv: "serve s (Data d # rest) = serve s' rest"
      "serve s ((Data d # rest) @ later) = serve s' (rest @ later)"
      using dr False by simp_all
    show ?thesis
      unfolding sv using "3.IH" [OF dr [symmetric] _ n'] "3.prems"(2) False sv(1) by simp
  qed
qed

text \<open>
  An exit keyword is final wherever it is logged. In every session whose log holds \<open>exit\<close>
  or \<open>quit\<close>, the keyword is the last command logged and no earlier one is a keyword, the
  last text sent is the logout banner, the channel is closed, and whatever the connection
  delivers afterwards changes nothing.
\<close>

lemma exit_keyword_is_final:
  assumes "''exit'' \<in> set (commands (handle_client input))
         \<or> ''quit'' \<in> set (commands (handle_client input))"
  shows "closed (handle_client input)
     \<and> last (sent (handle_client input)) = ''logout'' @ NL
     \<and> last (commands (handle_client input)) \<in> set [''exit'', ''quit'']
     \<and> no_exit (butlast (commands (handle_client input)))
     \<and> handle_client (input @ later) = handle_client input"
proof -
  have "no_exit (commands session0)" by (simp add: session0_def no_exit_def)
  moreover have "\<not> no_exit (commands (serve session0 input))"
    using assms by (auto simp: no_exit_def handle_client_def)
  ultimately show ?thesis
    unfolding handle_client_def by (rule serve_exit)
qed

text \<open>
  Claim C9, at a failing input. The loop takes a carriage return as the end of a line, as
  it takes a line feed, but splits the buffer at line feeds only. When the lines \<open>ls\<close> and
  \<open>exit\<close>, each ended by a carriage return, arrive in one chunk, the second line is a
  completed command line equal to \<open>exit\<close>, and yet the session logs the single command
  made of both lines, answers \<open>command not found\<close> and a prompt, and stays open with an
  empty buffer. When the same two lines arrive one after the other, the session logs \<open>ls\<close>
  and \<open>exit\<close>, sends the logout banner and closes.
\<close>

theorem exit_after_carriage_return_ignored:
  "commands (handle_client cr_input) = [''ls'' @ [CHR 0x0D] @ ''exit'']
   \<and> sent (handle_client cr_input) =
       [''Welcome to Ubuntu 20.04 LTS'' @ NL, ''$ '', ''command not found'' @ NL, ''$ '']
   \<and> \<not> closed (handle_client cr_input)
   \<and> buffer (handle_client cr_input) = []
   \<and> commands (handle_client cr_split_input) = [''ls'', ''exit'']
   \<and> last (sent (handle_client cr_split_input)) = ''logout'' @ NL
   \<and> closed (handle_client cr_split_input)"
  by code_simp

end
